theory Spec2Isabelle
  imports Main "HOL-Library.Sublist" "HOL-Library.Product_Lexorder"
begin

section \<open>Text\<close>

text \<open>
  A Python \<open>str\<close> is a sequence of code points. The model reads a \<^typ>\<open>char\<close> as one
  code point of the range U+0000 .. U+00FF: every character that the patterns, the stop
  list and the phrases of \<open>doe_pb_core.py\<close> name lies in that range (the file is in
  composed form). The tables below are Python's (\<open>str.isspace\<close>, \<open>str.isalnum\<close>,
  \<open>str.lower\<close>, \<open>unicodedata\<close>) restricted to it.
\<close>

definition cp :: "char \<Rightarrow> nat" where
  "cp c = of_char c"

definition in_range :: "nat \<Rightarrow> nat \<Rightarrow> char \<Rightarrow> bool" where
  "in_range lo hi c = (lo \<le> cp c \<and> cp c \<le> hi)"

definition isspace :: "char \<Rightarrow> bool" where
  "isspace c = (in_range 9 13 c \<or> in_range 28 32 c \<or> cp c = 133 \<or> cp c = 160)"

definition isdecimal :: "char \<Rightarrow> bool" where
  "isdecimal c = in_range 48 57 c"

definition isalnum :: "char \<Rightarrow> bool" where
  "isalnum c = (in_range 48 57 c \<or> in_range 65 90 c \<or> in_range 97 122 c \<or>
     cp c = 170 \<or> cp c = 178 \<or> cp c = 179 \<or> cp c = 181 \<or> cp c = 185 \<or> cp c = 186 \<or>
     in_range 188 190 c \<or> in_range 192 214 c \<or> in_range 216 246 c \<or> in_range 248 255 c)"

definition isword :: "char \<Rightarrow> bool" where
  "isword c = (isalnum c \<or> c = CHR ''_'')"

definition lower_chr :: "char \<Rightarrow> char" where
  "lower_chr c =
     (if in_range 65 90 c \<or> in_range 192 214 c \<or> in_range 216 222 c
      then char_of (cp c + 32) else c)"

definition lower :: "string \<Rightarrow> string" where
  "lower s = map lower_chr s"

text \<open>
  \<open>str.upper\<close>. The capitals of U+00B5 and U+00FF lie beyond U+00FF, so the model leaves
  these two unchanged; U+00DF becomes \<open>SS\<close>. The only use of \<open>upper\<close> tests membership
  in \<open>BAD_TOKENS\<close>, which holds none of the three.
\<close>

definition upper_chr :: "char \<Rightarrow> string" where
  "upper_chr c =
     (if in_range 97 122 c \<or> in_range 224 246 c \<or> in_range 248 254 c
      then [char_of (cp c - 32)]
      else if cp c = 223 then ''SS'' else [c])"

definition upper :: "string \<Rightarrow> string" where
  "upper s = concat (map upper_chr s)"

text \<open>
  \<open>unicodedata.normalize("NFD", c)\<close> followed by the removal of the marks (category
  \<open>Mn\<close>): a letter with a canonical decomposition keeps its base letter.
\<close>

definition strip_mark :: "char \<Rightarrow> char" where
  "strip_mark c =
     (if in_range 192 197 c then CHR ''A'' else if cp c = 199 then CHR ''C''
      else if in_range 200 203 c then CHR ''E'' else if in_range 204 207 c then CHR ''I''
      else if cp c = 209 then CHR ''N'' else if in_range 210 214 c then CHR ''O''
      else if in_range 217 220 c then CHR ''U'' else if cp c = 221 then CHR ''Y''
      else if in_range 224 229 c then CHR ''a'' else if cp c = 231 then CHR ''c''
      else if in_range 232 235 c then CHR ''e'' else if in_range 236 239 c then CHR ''i''
      else if cp c = 241 then CHR ''n'' else if in_range 242 246 c then CHR ''o''
      else if in_range 249 252 c then CHR ''u''
      else if cp c = 253 \<or> cp c = 255 then CHR ''y'' else c)"

definition nrm :: "string \<Rightarrow> string" where
  "nrm s = map strip_mark (lower s)"

text \<open>\<open>sub in s\<close> on strings.\<close>

fun contains :: "string \<Rightarrow> string \<Rightarrow> bool" where
  "contains sub [] = (sub = [])"
| "contains sub (c # cs) = (prefix sub (c # cs) \<or> contains sub cs)"

definition startswith :: "string \<Rightarrow> string \<Rightarrow> bool" where
  "startswith s pre = prefix pre s"

definition endswith :: "string \<Rightarrow> string \<Rightarrow> bool" where
  "endswith s suf = prefix (rev suf) (rev s)"

text \<open>\<open>s.strip()\<close>, \<open>s.strip(chars)\<close> and \<open>s.rstrip(chars)\<close>.\<close>

definition rstrip_by :: "(char \<Rightarrow> bool) \<Rightarrow> string \<Rightarrow> string" where
  "rstrip_by p s = rev (dropWhile p (rev s))"

definition strip_by :: "(char \<Rightarrow> bool) \<Rightarrow> string \<Rightarrow> string" where
  "strip_by p s = rstrip_by p (dropWhile p s)"

definition strip :: "string \<Rightarrow> string" where
  "strip s = strip_by isspace s"

definition strip_chars :: "string \<Rightarrow> string \<Rightarrow> string" where
  "strip_chars chars s = strip_by (\<lambda>c. c \<in> set chars) s"

definition rstrip_chars :: "string \<Rightarrow> string \<Rightarrow> string" where
  "rstrip_chars chars s = rstrip_by (\<lambda>c. c \<in> set chars) s"

text \<open>\<open>s[a:b]\<close> for \<open>0 \<le> a\<close>, \<open>0 \<le> b\<close>.\<close>

definition slice :: "nat \<Rightarrow> nat \<Rightarrow> string \<Rightarrow> string" where
  "slice a b s = take (b - a) (drop a s)"

text \<open>
  \<open>s.split(sep)\<close> for a separator that is not empty: the pieces between the occurrences
  of \<open>sep\<close>, found from the left and not overlapping, the empty pieces included.
\<close>

fun split_acc :: "string \<Rightarrow> string \<Rightarrow> string \<Rightarrow> string list" where
  "split_acc sep acc [] = [rev acc]"
| "split_acc sep acc (c # cs) =
     (if prefix sep (c # cs) then rev acc # split_acc sep [] (drop (length sep - 1) cs)
      else split_acc sep (c # acc) cs)"

definition split :: "string \<Rightarrow> string \<Rightarrow> string list" where
  "split s sep = split_acc sep [] s"

text \<open>\<open>s.split()\<close>: the maximal runs of characters that are not whitespace.\<close>

fun split_ws_acc :: "string \<Rightarrow> string \<Rightarrow> string list" where
  "split_ws_acc acc [] = (if acc = [] then [] else [rev acc])"
| "split_ws_acc acc (c # cs) =
     (if isspace c then (if acc = [] then [] else [rev acc]) @ split_ws_acc [] cs
      else split_ws_acc (c # acc) cs)"

definition split_ws :: "string \<Rightarrow> string list" where
  "split_ws s = split_ws_acc [] s"

text \<open>\<open>re.sub(r"\s+", " ", s)\<close>: every maximal run of whitespace becomes one space.\<close>

fun sub_ws_from :: "bool \<Rightarrow> string \<Rightarrow> string" where
  "sub_ws_from run [] = []"
| "sub_ws_from run (c # cs) =
     (if isspace c then (if run then sub_ws_from True cs else CHR '' '' # sub_ws_from True cs)
      else c # sub_ws_from False cs)"

definition sub_ws :: "string \<Rightarrow> string" where
  "sub_ws s = sub_ws_from False s"

text \<open>\<open>str(n)\<close> and \<open>int(s)\<close> on a string of decimal digits.\<close>

function str_nat :: "nat \<Rightarrow> string" where
  "str_nat n = (if n < 10 then [char_of (48 + n)] else str_nat (n div 10) @ [char_of (48 + n mod 10)])"
  by pat_completeness auto
termination
  by (relation "measure id") auto

definition int_digits :: "string \<Rightarrow> int" where
  "int_digits s = foldl (\<lambda>a c. 10 * a + int (cp c - 48)) 0 s"

section \<open>Regular expressions\<close>

text \<open>
  The patterns of the source are values of \<open>rx\<close>; \<open>rx_match\<close> is the backtracking
  matcher of Python's \<open>re\<close>: alternatives are tried from the left, a greedy repetition
  tries one more round before it tries what follows, a lazy one the other way round, and
  the first way through the whole pattern is the match. The matcher is written with the
  rest of the pattern as a continuation \<open>k\<close>.
\<close>

datatype citem = CChr char | CRng char char | CSpace | CDigit

datatype atom = Lit char | Dot | Cls bool "citem list"

datatype rx =
    Atom atom
  | Bnd
  | Eos
  | Eps
  | Cat rx rx
  | Alt rx rx
  | Rep nat "nat option" bool rx
  | Grp nat rx

text \<open>
  With the flag \<open>re.I\<close> a literal or a class item matches a character when both have the
  same lower-case form.
\<close>

definition rng_ok :: "bool \<Rightarrow> char \<Rightarrow> char \<Rightarrow> char \<Rightarrow> bool" where
  "rng_ok ic lo hi c =
     (if ic then (\<exists>n \<in> {cp lo .. cp hi}. lower_chr (char_of n) = lower_chr c)
      else in_range (cp lo) (cp hi) c)"

fun item_ok :: "bool \<Rightarrow> citem \<Rightarrow> char \<Rightarrow> bool" where
  "item_ok ic (CChr x) c = (if ic then lower_chr c = lower_chr x else c = x)"
| "item_ok ic (CRng lo hi) c = rng_ok ic lo hi c"
| "item_ok ic CSpace c = isspace c"
| "item_ok ic CDigit c = isdecimal c"

fun atom_ok :: "bool \<Rightarrow> atom \<Rightarrow> char \<Rightarrow> bool" where
  "atom_ok ic (Lit x) c = (if ic then lower_chr c = lower_chr x else c = x)"
| "atom_ok ic Dot c = (c \<noteq> CHR 0x0A)"
| "atom_ok ic (Cls neg items) c = ((\<exists>it \<in> set items. item_ok ic it c) \<noteq> neg)"

text \<open>
  The state of a match in progress: the character before the position (for \<open>\b\<close>), the
  position, the rest of the subject, and the groups closed so far as
  (number, start, end), the latest first.
\<close>

record mstate =
  prev :: "char option"
  pos :: nat
  rest :: string
  groups :: "(nat \<times> nat \<times> nat) list"

definition at_boundary :: "mstate \<Rightarrow> bool" where
  "at_boundary st =
     ((case prev st of None \<Rightarrow> False | Some c \<Rightarrow> isword c) \<noteq>
      (case rest st of [] \<Rightarrow> False | c # cs \<Rightarrow> isword c))"

text \<open>\<open>$\<close> without \<open>re.M\<close>: the end of the subject, or just before a last newline.\<close>

definition at_end :: "mstate \<Rightarrow> bool" where
  "at_end st = (rest st = [] \<or> rest st = [CHR 0x0A])"

text \<open>The first \<open>n\<close> rounds of a repetition, which are not optional.\<close>

primrec times :: "nat \<Rightarrow> ((mstate \<Rightarrow> mstate option) \<Rightarrow> mstate \<Rightarrow> mstate option) \<Rightarrow>
    (mstate \<Rightarrow> mstate option) \<Rightarrow> mstate \<Rightarrow> mstate option" where
  "times 0 body k st = k st"
| "times (Suc n) body k st = body (times n body k) st"

text \<open>
  The optional rounds, at most \<open>lim\<close> of them. A further round must consume a character
  (no body of a repetition in the source matches the empty string), so the rest of the
  subject at the start, \<open>fuel\<close>, bounds their number.
\<close>

primrec more :: "string \<Rightarrow> ((mstate \<Rightarrow> mstate option) \<Rightarrow> mstate \<Rightarrow> mstate option) \<Rightarrow>
    nat option \<Rightarrow> bool \<Rightarrow> (mstate \<Rightarrow> mstate option) \<Rightarrow> mstate \<Rightarrow> mstate option" where
  "more [] body lim greedy k st = k st"
| "more (x # fuel) body lim greedy k st =
     (if lim = Some 0 then k st
      else if greedy then
        (case body (\<lambda>st'. if pos st' = pos st then None
                           else more fuel body (map_option (\<lambda>l. l - 1) lim) greedy k st') st of
           Some r \<Rightarrow> Some r
         | None \<Rightarrow> k st)
      else
        (case k st of
           Some r \<Rightarrow> Some r
         | None \<Rightarrow> body (\<lambda>st'. if pos st' = pos st then None
                           else more fuel body (map_option (\<lambda>l. l - 1) lim) greedy k st') st))"

primrec rx_match :: "bool \<Rightarrow> rx \<Rightarrow> (mstate \<Rightarrow> mstate option) \<Rightarrow> mstate \<Rightarrow> mstate option" where
  "rx_match ic (Atom a) k st =
     (case rest st of
        [] \<Rightarrow> None
      | c # cs \<Rightarrow> if atom_ok ic a c
                 then k (st\<lparr>prev := Some c, pos := pos st + 1, rest := cs\<rparr>) else None)"
| "rx_match ic Bnd k st = (if at_boundary st then k st else None)"
| "rx_match ic Eos k st = (if at_end st then k st else None)"
| "rx_match ic Eps k st = k st"
| "rx_match ic (Cat a b) k st = rx_match ic a (rx_match ic b k) st"
| "rx_match ic (Alt a b) k st =
     (case rx_match ic a k st of Some r \<Rightarrow> Some r | None \<Rightarrow> rx_match ic b k st)"
| "rx_match ic (Rep mn mx greedy r) k st =
     times mn (rx_match ic r)
       (\<lambda>st'. more (rest st') (rx_match ic r) (map_option (\<lambda>x. x - mn) mx) greedy k st') st"
| "rx_match ic (Grp n r) k st =
     rx_match ic r (\<lambda>st'. k (st'\<lparr>groups := (n, pos st, pos st') # groups st'\<rparr>)) st"

text \<open>A match object: \<open>m.start()\<close>, \<open>m.end()\<close> and the spans of its groups.\<close>

record rmatch =
  m_start :: nat
  m_end :: nat
  m_groups :: "(nat \<times> nat \<times> nat) list"

text \<open>
  \<open>pattern.search\<close> from a position on: the match at the leftmost position that has one.
\<close>

primrec search_from :: "bool \<Rightarrow> rx \<Rightarrow> char option \<Rightarrow> nat \<Rightarrow> string \<Rightarrow> rmatch option" where
  "search_from ic r bef p [] =
     (case rx_match ic r Some \<lparr>prev = bef, pos = p, rest = [], groups = []\<rparr> of
        None \<Rightarrow> None
      | Some e \<Rightarrow> Some \<lparr>m_start = p, m_end = pos e, m_groups = groups e\<rparr>)"
| "search_from ic r bef p (c # cs) =
     (case rx_match ic r Some \<lparr>prev = bef, pos = p, rest = c # cs, groups = []\<rparr> of
        None \<Rightarrow> search_from ic r (Some c) (p + 1) cs
      | Some e \<Rightarrow> Some \<lparr>m_start = p, m_end = pos e, m_groups = groups e\<rparr>)"

definition search :: "bool \<Rightarrow> rx \<Rightarrow> string \<Rightarrow> rmatch option" where
  "search ic r s = search_from ic r None 0 s"

text \<open>
  \<open>m.group(n)\<close> of a match in \<open>s\<close>. Every group of the source's patterns lies outside the
  optional parts, so a match always has it; the empty string stands for Python's
  \<open>None\<close> of a group that took no part.
\<close>

definition group :: "nat \<Rightarrow> rmatch \<Rightarrow> string \<Rightarrow> string" where
  "group n m s = (case map_of (m_groups m) n of None \<Rightarrow> [] | Some (a, b) \<Rightarrow> slice a b s)"

text \<open>
  \<open>pattern.finditer\<close>: the matches from the left, each search starting where the match
  before ended (one character further after an empty match). \<open>fuel\<close> is the subject: each
  round moves at least one character on.
\<close>

primrec finditer_from :: "string \<Rightarrow> bool \<Rightarrow> rx \<Rightarrow> string \<Rightarrow> nat \<Rightarrow> rmatch list" where
  "finditer_from [] ic r s p =
     (case search_from ic r (if p = 0 then None else Some (s ! (p - 1))) p (drop p s) of
        None \<Rightarrow> []
      | Some m \<Rightarrow> [m])"
| "finditer_from (x # fuel) ic r s p =
     (case search_from ic r (if p = 0 then None else Some (s ! (p - 1))) p (drop p s) of
        None \<Rightarrow> []
      | Some m \<Rightarrow>
          m # (if length s \<le> m_end m \<and> m_start m < m_end m then []
               else finditer_from fuel ic r s (if m_end m = m_start m then m_end m + 1 else m_end m)))"

definition finditer :: "bool \<Rightarrow> rx \<Rightarrow> string \<Rightarrow> rmatch list" where
  "finditer ic r s = finditer_from s ic r s 0"

text \<open>\<open>pattern.findall\<close> of a pattern with one group: the text of group 1 of every match.\<close>

definition findall :: "bool \<Rightarrow> rx \<Rightarrow> string \<Rightarrow> string list" where
  "findall ic r s = map (\<lambda>m. group 1 m s) (finditer ic r s)"

subsection \<open>Writing patterns\<close>

definition seq :: "rx list \<Rightarrow> rx" where
  "seq rs = foldr Cat rs Eps"

definition alts :: "rx list \<Rightarrow> rx" where
  "alts rs = foldr Alt (butlast rs) (last rs)"

definition lit :: "string \<Rightarrow> rx" where
  "lit s = seq (map (\<lambda>c. Atom (Lit c)) s)"

definition cls :: "citem list \<Rightarrow> rx" where
  "cls items = Atom (Cls False items)"

definition ncls :: "citem list \<Rightarrow> rx" where
  "ncls items = Atom (Cls True items)"

definition opt :: "rx \<Rightarrow> rx" where
  "opt r = Rep 0 (Some 1) True r"

definition star :: "rx \<Rightarrow> rx" where
  "star r = Rep 0 None True r"

definition plus :: "rx \<Rightarrow> rx" where
  "plus r = Rep 1 None True r"

definition at_least :: "nat \<Rightarrow> rx \<Rightarrow> rx" where
  "at_least n r = Rep n None True r"

definition at_least_lazy :: "nat \<Rightarrow> rx \<Rightarrow> rx" where
  "at_least_lazy n r = Rep n None False r"

definition exactly :: "nat \<Rightarrow> rx \<Rightarrow> rx" where
  "exactly n r = Rep n (Some n) True r"

definition ws :: rx where
  "ws = cls [CSpace]"

definition digit :: rx where
  "digit = cls [CDigit]"

section \<open>The patterns of \<open>doe_pb_core.py\<close>\<close>

text \<open>
  Each pattern is written next to its source text. The flag \<open>(?i)\<close> of a pattern is the
  first argument of \<open>search\<close> where the pattern is used.
\<close>

definition CUTOFF_YEAR_STOP :: int where
  "CUTOFF_YEAR_STOP = 2019"

definition PAGE_STEP :: nat where
  "PAGE_STEP = 12"

definition BASE_URL :: string where
  "BASE_URL = ''https://auniao.pb.gov.br/doe/edicoes-recentes''"

text \<open>The class \<open>[A-Z\<acute>A\<acute>E\<acute>I\<acute>O\<acute>U\<circ>A\<circ>E\<circ>O~A~O,C]\<close> of capital letters, the accented ones by code point.\<close>

definition caps :: "citem list" where
  "caps = [CRng (CHR ''A'') (CHR ''Z''), CChr (CHR 0xC1), CChr (CHR 0xC9), CChr (CHR 0xCD),
     CChr (CHR 0xD3), CChr (CHR 0xDA), CChr (CHR 0xC2), CChr (CHR 0xCA), CChr (CHR 0xD4),
     CChr (CHR 0xC3), CChr (CHR 0xD5), CChr (CHR 0xC7)]"

text \<open>\<^verbatim>\<open>(\d{2})[-/](\d{2})[-/](\d{4})\<close>\<close>

definition RE_DATE :: rx where
  "RE_DATE = seq [Grp 1 (exactly 2 digit), cls [CChr (CHR ''-''), CChr (CHR ''/'')],
     Grp 2 (exactly 2 digit), cls [CChr (CHR ''-''), CChr (CHR ''/'')], Grp 3 (exactly 4 digit)]"

text \<open>\<^verbatim>\<open>\b([CAPS]{2,}(?:\s+[CAPS]{2,}){1,})\b\<close>\<close>

definition RE_NOME_CAIXA :: rx where
  "RE_NOME_CAIXA = seq [Bnd,
     Grp 1 (seq [at_least 2 (cls caps), at_least 1 (seq [plus ws, at_least 2 (cls caps)])]),
     Bnd]"

text \<open>
  The common tail of \<open>RE_MATRICULA\<close> and \<open>RE_PROCESSO\<close>:
  \<^verbatim>\<open>(?:\s*n[\<ordmasculine>o\<degree>\.\-:]*)?\s*[:\-]?\s*([A-Z0-9./\-]+)\<close>
\<close>

definition label_tail :: rx where
  "label_tail = seq [
     opt (seq [star ws, lit ''n'',
       star (cls [CChr (CHR 0xBA), CChr (CHR ''o''), CChr (CHR 0xB0), CChr (CHR ''.''),
                  CChr (CHR ''-''), CChr (CHR '':'')])]),
     star ws, opt (cls [CChr (CHR '':''), CChr (CHR ''-'')]), star ws,
     Grp 1 (plus (cls [CRng (CHR ''A'') (CHR ''Z''), CRng (CHR ''0'') (CHR ''9''),
                       CChr (CHR ''.''), CChr (CHR ''/''), CChr (CHR ''-'')]))]"

text \<open>\<^verbatim>\<open>(?i)matricul[ao]?\<close> and the tail.\<close>

definition RE_MATRICULA :: rx where
  "RE_MATRICULA =
     seq [lit ''matricul'', opt (cls [CChr (CHR ''a''), CChr (CHR ''o'')]), label_tail]"

text \<open>\<^verbatim>\<open>(?i)processo\<close> and the tail.\<close>

definition RE_PROCESSO :: rx where
  "RE_PROCESSO = seq [lit ''processo'', label_tail]"

text \<open>The class \<^verbatim>\<open>[CAPS\s\-.]\<close> of the characters that continue a name.\<close>

definition name_tail :: "citem list" where
  "name_tail = caps @ [CSpace, CChr (CHR ''-''), CChr (CHR ''.'')]"

text \<open>
  \<^verbatim>\<open>(?i)conceder\s+(?:aposentadori[ao]|pens[a~a]o)\s+(?:vital[i\<acute>i]cia|tempor[\<acute>aa]ria)?\s*\<close>
  \<^verbatim>\<open>(?:,?\s*por[^,.;]+)?\s*a[o`a]?\s+([CAPS][CAPS\s\-.]{6,}?)(?:,|\.|;|$)\<close>
\<close>

definition RE_NOME_POS_FRASE :: rx where
  "RE_NOME_POS_FRASE = seq [lit ''conceder'', plus ws,
     alts [seq [lit ''aposentadori'', cls [CChr (CHR ''a''), CChr (CHR ''o'')]],
           seq [lit ''pens'', cls [CChr (CHR ''a''), CChr (CHR 0xE3)], lit ''o'']],
     plus ws,
     opt (alts [seq [lit ''vital'', cls [CChr (CHR ''i''), CChr (CHR 0xED)], lit ''cia''],
                seq [lit ''tempor'', cls [CChr (CHR 0xE1), CChr (CHR ''a'')], lit ''ria'']]),
     star ws,
     opt (seq [opt (lit '',''), star ws, lit ''por'',
               plus (ncls [CChr (CHR '',''), CChr (CHR ''.''), CChr (CHR '';'')])]),
     star ws, lit ''a'', opt (cls [CChr (CHR ''o''), CChr (CHR 0xE0)]), plus ws,
     Grp 1 (seq [cls caps, at_least_lazy 6 (cls name_tail)]),
     alts [lit '','', lit ''.'', lit '';'', Eos]]"

text \<open>
  \<^verbatim>\<open>(?i)(?:servidor(?:a)?|benefici[\<acute>aa]ri[ao]|pensionist[ao]|requerente)\s+\<close>
  \<^verbatim>\<open>([CAPS][CAPS\s\-.]{6,})\<close>
\<close>

definition RE_NOME_SERVIDOR :: rx where
  "RE_NOME_SERVIDOR = seq [
     alts [seq [lit ''servidor'', opt (lit ''a'')],
           seq [lit ''benefici'', cls [CChr (CHR 0xE1), CChr (CHR ''a'')], lit ''ri'',
                cls [CChr (CHR ''a''), CChr (CHR ''o'')]],
           seq [lit ''pensionist'', cls [CChr (CHR ''a''), CChr (CHR ''o'')]],
           lit ''requerente''],
     plus ws,
     Grp 1 (seq [cls caps, at_least 6 (cls name_tail)])]"

text \<open>\<^verbatim>\<open>(?i)matricul|processo|benefici[\<acute>aa]ri[ao]|pensionist[ao]\<close>, the key words of the window.\<close>

definition RE_KEYWORD :: rx where
  "RE_KEYWORD = alts [lit ''matricul'', lit ''processo'',
     seq [lit ''benefici'', cls [CChr (CHR 0xE1), CChr (CHR ''a'')], lit ''ri'',
          cls [CChr (CHR ''a''), CChr (CHR ''o'')]],
     seq [lit ''pensionist'', cls [CChr (CHR ''a''), CChr (CHR ''o'')]]]"

text \<open>\<^verbatim>\<open>\b[CAPS]{2,}\s+[CAPS]{2,}\b\<close>, the second part of the sort key.\<close>

definition RE_PAIR :: rx where
  "RE_PAIR = seq [Bnd, at_least 2 (cls caps), plus ws, at_least 2 (cls caps), Bnd]"

text \<open>
  The pattern of the scan of the page source. The source writes it in a raw string with
  doubled backslashes, \<^verbatim>\<open>href=["\\\']([^"\\\']+\\.pdf[^"\\\']*)["\\\']\<close>, which \<open>re\<close> reads
  as: a quote or a backslash; then, as group 1, characters that are neither, a backslash,
  any character, \<open>pdf\<close>, and characters that are neither; then a quote or a backslash.
\<close>

definition quote_items :: "citem list" where
  "quote_items = [CChr (CHR 0x22), CChr (CHR 0x5C), CChr (CHR 0x27)]"

definition RE_HREF_PDF :: rx where
  "RE_HREF_PDF = seq [lit ''href='', cls quote_items,
     Grp 1 (seq [plus (ncls quote_items), Atom (Lit (CHR 0x5C)), Atom Dot, lit ''pdf'',
                 star (ncls quote_items)]),
     cls quote_items]"

definition BAD_TOKENS :: "string list" where
  "BAD_TOKENS = [''APOSENTADORIA'', ''PENS'' @ [CHR 0xC3] @ ''O'', ''PENSAO'', ''PORTARIA'',
     ''GABINETE'', ''PRESID'' @ [CHR 0xCA] @ ''NCIA'', ''PRESIDENCIA'', ''ESTADO'',
     ''PARA'' @ [CHR 0xCD] @ ''BA'', ''PARAIBA'', ''DO'', ''DA'', ''DE'', ''E'', ''O'', ''A'',
     ''DI'' @ [CHR 0xC1] @ ''RIO'', ''OFICIAL'', ''GOVERNO'', ''PBPREV'', ''SECRETARIA'',
     ''RESOLVE'', ''CONCEDER'', ''VOLUNT'' @ [CHR 0xC1] @ ''RIA'',
     ''COMPULS'' @ [CHR 0xD3] @ ''RIA'', ''COMPULSORIA'']"

section \<open>The record extractor\<close>

text \<open>The dictionary that \<open>_extract_records\<close> appends for one act.\<close>

record registro =
  tipo_ato :: string
  nome :: string
  matricula :: string
  processo :: string
  pagina :: nat
  trecho :: string

text \<open>The \<open>if\<close>/\<open>elif\<close> chain that sets \<open>tipo\<close>, from \<open>nb\<close> and \<open>bflat\<close>.\<close>

definition tipo_of :: "string \<Rightarrow> string \<Rightarrow> string option" where
  "tipo_of nb bflat =
     (if contains ''conceder aposentadoria'' nb then Some ''APOSENTADORIA''
      else if contains ''conceder pensao'' nb
              \<or> contains (''conceder pens'' @ [CHR 0xE3] @ ''o'') (lower bflat)
        then Some ''PENSAO''
      else if (contains ''isencao de imposto de renda'' nb
               \<or> contains (''isen'' @ [CHR 0xE7, CHR 0xE3] @ ''o de imposto de renda'') (lower bflat))
              \<and> contains ''indef'' nb
        then Some ''ISENCAO_INDEFERIDA''
      else None)"

text \<open>The first step of the name cascade: the name after the act.\<close>

definition nome_pos_frase :: "string \<Rightarrow> string" where
  "nome_pos_frase bflat =
     (case search True RE_NOME_POS_FRASE bflat of
        None \<Rightarrow> []
      | Some m \<Rightarrow> strip_chars '' .;-:,'' (group 1 m bflat))"

text \<open>The second step: the name after a role.\<close>

definition nome_servidor :: "string \<Rightarrow> string" where
  "nome_servidor bflat =
     (case search True RE_NOME_SERVIDOR bflat of
        None \<Rightarrow> []
      | Some m2 \<Rightarrow> strip_chars '' .;-:,'' (group 1 m2 bflat))"

text \<open>
  The third step: the runs of capitals in a window of 120 characters around the first key
  word, without those that hold a stop word, the longest first.
\<close>

definition janela :: "string \<Rightarrow> string" where
  "janela bflat =
     (case search True RE_KEYWORD bflat of
        None \<Rightarrow> bflat
      | Some km \<Rightarrow> slice (m_start km - 120) (min (length bflat) (m_end km + 120)) bflat)"

definition candidato_ok :: "string \<Rightarrow> bool" where
  "candidato_ok nm =
     (let parts = split_ws nm
      in \<not> length parts < 2 \<and> \<not> (\<exists>p \<in> set parts. upper p \<in> set BAD_TOKENS))"

definition sort_chave :: "string \<Rightarrow> int \<times> bool" where
  "sort_chave x = (- int (length x), \<not> (search False RE_PAIR x \<noteq> None))"

definition nome_caixa :: "string \<Rightarrow> string" where
  "nome_caixa bflat =
     (let nomes = findall False RE_NOME_CAIXA (janela bflat);
          cand = map strip (filter candidato_ok nomes)
      in case sort_key sort_chave cand of [] \<Rightarrow> [] | c # _ \<Rightarrow> c)"

definition extrair_nome :: "string \<Rightarrow> string" where
  "extrair_nome bflat =
     (let n1 = nome_pos_frase bflat;
          n2 = (if n1 = [] then nome_servidor bflat else n1)
      in if n2 = [] then nome_caixa bflat else n2)"

definition extrair_matricula :: "string \<Rightarrow> string" where
  "extrair_matricula bflat =
     (case search True RE_MATRICULA bflat of
        None \<Rightarrow> []
      | Some mmat \<Rightarrow> strip_chars ''.,; '' (group 1 mmat bflat))"

definition extrair_processo :: "string \<Rightarrow> string" where
  "extrair_processo bflat =
     (case search True RE_PROCESSO bflat of
        None \<Rightarrow> []
      | Some mpro \<Rightarrow> strip_chars ''.,; '' (group 1 mpro bflat))"

text \<open>
  The body of the loop over the blocks of page \<open>i\<close>: \<open>None\<close> where the source goes on to
  the next block without a record.
\<close>

definition achatar :: "string \<Rightarrow> string" where
  "achatar bloco = strip (sub_ws bloco)"

definition registro_do_bloco :: "nat \<Rightarrow> string \<Rightarrow> registro option" where
  "registro_do_bloco i bloco =
     (let bflat = achatar bloco; nb = nrm bflat
      in case tipo_of nb bflat of
           None \<Rightarrow> None
         | Some tipo \<Rightarrow>
             Some \<lparr>tipo_ato = tipo, nome = extrair_nome bflat,
                   matricula = extrair_matricula bflat, processo = extrair_processo bflat,
                   pagina = i, trecho = take 260 bflat\<rparr>)"

text \<open>
  The blocks of a page text: the pieces between blank lines, or the lines when there are
  fewer than three such pieces, without the pieces of whitespace only.
\<close>

definition raw_blocks :: "string \<Rightarrow> string list" where
  "raw_blocks txt =
     (let bs = filter (\<lambda>b. strip b \<noteq> []) (split txt [CHR 0x0A, CHR 0x0A])
      in if length bs < 3 then filter (\<lambda>b. strip b \<noteq> []) (split txt [CHR 0x0A]) else bs)"

definition registros_da_pagina :: "nat \<Rightarrow> string option \<Rightarrow> registro list" where
  "registros_da_pagina i pg =
     (let txt = (case pg of None \<Rightarrow> [] | Some t \<Rightarrow> t)
      in if txt = [] then [] else List.map_filter (registro_do_bloco i) (raw_blocks txt))"

text \<open>
  \<open>_extract_records\<close> on the pages that the PDF reader returns, each with the result of
  \<open>extract_text()\<close> (\<open>None\<close> or a string); the pages are numbered from 1.
\<close>

definition extract_records :: "string option list \<Rightarrow> registro list" where
  "extract_records pages =
     concat (map (\<lambda>(i, pg). registros_da_pagina i pg) (List.enumerate 1 pages))"

text \<open>
  An excerpt is collapsed when no two whitespace characters stand side by side.
\<close>

fun ws_run_free :: "string \<Rightarrow> bool" where
  "ws_run_free (a # b # cs) = (\<not> (isspace a \<and> isspace b) \<and> ws_run_free (b # cs))"
| "ws_run_free cs = True"

section \<open>The browser and the network\<close>

text \<open>
  The browser session, \<open>urllib\<close> and the PDF reader are outside the program. Every call
  to them takes the number of calls made so far (the clock), so the same URL may show
  another page or give another response at another time. \<open>browse\<close> is the page shown
  after \<open>d.get(url)\<close>: its URL, the \<open>a[href]\<close>, \<open>iframe[src]\<close> and \<open>embed[src]\<close> elements and
  the page source; navigation itself is taken to succeed. \<open>urlopen\<close> is the response to a
  request for a URL with a \<open>Referer\<close> header (or without one): \<open>None\<close> is any exception
  raised inside the \<open>try\<close> of \<open>_download_pdf_bytes\<close>. \<open>urljoin\<close> is
  \<open>urllib.parse.urljoin\<close>, and \<open>pdf_pages\<close> the texts of the pages that \<open>pdfplumber\<close> reads
  from the bytes.
\<close>

record anchor =
  a_text :: "string option"
  a_href :: "string option"

record page =
  current_url :: string
  anchors :: "anchor list"
  iframes :: "string option list"
  embeds :: "string option list"
  page_source :: string

record response =
  content_type :: "string option"
  body :: string

record env =
  browse :: "nat \<Rightarrow> string \<Rightarrow> page"
  urlopen :: "nat \<Rightarrow> string \<Rightarrow> string option \<Rightarrow> response option"
  urljoin :: "string \<Rightarrow> string \<Rightarrow> string"
  pdf_pages :: "string \<Rightarrow> string option list"

text \<open>\<open>x or ""\<close> for an attribute that may be \<open>None\<close>.\<close>

definition or_empty :: "string option \<Rightarrow> string" where
  "or_empty x = (case x of None \<Rightarrow> [] | Some s \<Rightarrow> s)"

section \<open>The link resolver\<close>

definition download_pdf_bytes :: "env \<Rightarrow> nat \<Rightarrow> string \<Rightarrow> string \<Rightarrow> string option" where
  "download_pdf_bytes e t url referer =
     (case urlopen e t url (if referer = [] then None else Some referer) of
        None \<Rightarrow> None
      | Some resp \<Rightarrow>
          (let ct = or_empty (content_type resp); data = body resp
           in if take 4 data = ''%PDF'' \<or> contains ''application/pdf'' ct then Some data
              else None))"

text \<open>The candidates of the rendered page, in the order of the three scans.\<close>

definition anchor_candidates :: "env \<Rightarrow> page \<Rightarrow> string list" where
  "anchor_candidates e pg =
     map (\<lambda>href. urljoin e (current_url pg) href)
       (filter (\<lambda>href. endswith (lower href) ''.pdf'' \<or> contains ''@@download/file'' href)
          (map (\<lambda>a. or_empty (a_href a)) (anchors pg)))"

definition frame_candidates :: "env \<Rightarrow> page \<Rightarrow> string list" where
  "frame_candidates e pg =
     map (\<lambda>src. urljoin e (current_url pg) src)
       (filter (\<lambda>src. contains ''.pdf'' src \<or> contains ''@@download/file'' src)
          (map or_empty (iframes pg @ embeds pg)))"

definition suffix_candidates :: "string \<Rightarrow> string list" where
  "suffix_candidates detail_url =
     (if endswith (lower detail_url) ''.pdf'' \<and> \<not> contains ''/@@download/file'' detail_url
      then [rstrip_chars ''/'' detail_url @ ''/@@download/file''] else [])"

definition scanned :: "env \<Rightarrow> page \<Rightarrow> string \<Rightarrow> string list" where
  "scanned e pg detail_url =
     anchor_candidates e pg @ frame_candidates e pg @ suffix_candidates detail_url"

definition candidates :: "env \<Rightarrow> page \<Rightarrow> string \<Rightarrow> string list" where
  "candidates e pg detail_url =
     (if scanned e pg detail_url = [] then [detail_url] else scanned e pg detail_url)"

text \<open>
  The loop over the candidates: a URL already in \<open>seen\<close> is passed over, the first
  download that is not empty ends the loop. The result is the hit, the clock, and the URLs
  requested, in order.
\<close>

fun try_candidates ::
    "env \<Rightarrow> string \<Rightarrow> nat \<Rightarrow> string set \<Rightarrow> string list \<Rightarrow> (string \<times> string) option \<times> nat \<times> string list" where
  "try_candidates e referer t seen [] = (None, t, [])"
| "try_candidates e referer t seen (u # us) =
     (if u \<in> seen then try_candidates e referer t seen us
      else case download_pdf_bytes e t u referer of
             Some (b # bs) \<Rightarrow> (Some (b # bs, u), t + 1, [u])
           | _ \<Rightarrow> (case try_candidates e referer (t + 1) (insert u seen) us of
                     (hit, t', tried) \<Rightarrow> (hit, t', u # tried)))"

text \<open>The loop over the matches of the scan of the page source, which keeps no \<open>seen\<close>.\<close>

fun try_matches ::
    "env \<Rightarrow> string \<Rightarrow> nat \<Rightarrow> string list \<Rightarrow> (string \<times> string) option \<times> nat \<times> string list" where
  "try_matches e referer t [] = (None, t, [])"
| "try_matches e referer t (u # us) =
     (case download_pdf_bytes e t u referer of
        Some (b # bs) \<Rightarrow> (Some (b # bs, u), t + 1, [u])
      | _ \<Rightarrow> (case try_matches e referer (t + 1) us of
                (hit, t', tried) \<Rightarrow> (hit, t', u # tried)))"

definition source_matches :: "env \<Rightarrow> page \<Rightarrow> string list" where
  "source_matches e pg =
     map (\<lambda>m. urljoin e (current_url pg) (group 1 m (page_source pg)))
       (finditer True RE_HREF_PDF (page_source pg))"

text \<open>
  \<open>_find_pdf_link_in_detail\<close>: the bytes (or \<open>None\<close>) and the URL, then the clock and the
  URLs requested.
\<close>

definition find_pdf_link_in_detail ::
    "env \<Rightarrow> nat \<Rightarrow> string \<Rightarrow> (string option \<times> string) \<times> nat \<times> string list" where
  "find_pdf_link_in_detail e t detail_url =
     (let pg = browse e t detail_url;
          cands = candidates e pg detail_url
      in case try_candidates e detail_url (t + 1) {} cands of
           (Some (data, u), t1, tried) \<Rightarrow> ((Some data, u), t1, tried)
         | (None, t1, tried) \<Rightarrow>
             (case try_matches e detail_url t1 (source_matches e pg) of
                (Some (data, u), t2, tried2) \<Rightarrow> ((Some data, u), t2, tried @ tried2)
              | (None, t2, tried2) \<Rightarrow>
                  ((None, case cands of [] \<Rightarrow> detail_url | c # _ \<Rightarrow> c), t2, tried @ tried2)))"

section \<open>The crawl\<close>

type_synonym item = "string \<times> string \<times> int option"

text \<open>The body of the loop of \<open>_iter_listing_page\<close>, on \<open>(stop_flag, items)\<close>.\<close>

definition year_of :: "string \<Rightarrow> int option" where
  "year_of txt =
     (case search False RE_DATE txt of
        None \<Rightarrow> None
      | Some m \<Rightarrow> Some (int_digits (group 3 m txt)))"

definition diario_label :: string where
  "diario_label = ''Di'' @ [CHR 0xE1] @ ''rio Oficial''"

definition listing_step :: "bool \<times> item list \<Rightarrow> anchor \<Rightarrow> bool \<times> item list" where
  "listing_step acc a =
     (let txt = strip (or_empty (a_text a))
      in if \<not> contains diario_label txt \<or> \<not> contains ''.pdf'' txt then acc
         else let href = or_empty (a_href a); year = year_of txt
              in case year of
                   Some y \<Rightarrow> if y \<le> CUTOFF_YEAR_STOP then (True, snd acc)
                             else (fst acc, snd acc @ [(href, txt, year)])
                 | None \<Rightarrow> (fst acc, snd acc @ [(href, txt, year)]))"

definition iter_listing_page :: "env \<Rightarrow> nat \<Rightarrow> string \<Rightarrow> bool \<times> item list" where
  "iter_listing_page e t url = foldl listing_step (False, []) (anchors (browse e t url))"

text \<open>
  What the crawl has done so far, for the statements about its order: the listing pages
  loaded and the references handed to the resolver, each with the clock of the call.
\<close>

datatype event = Listing nat string | Resolve nat string

type_synonym csv_row = "string \<times> string \<times> string \<times> registro"

record crawl =
  clock :: nat
  seen :: "string set"
  saved :: nat
  rows_total :: nat
  csv_rows :: "csv_row list"
  trace :: "event list"

text \<open>
  The body of the loop over the items of a listing page. The copy of the PDF written to
  the download directory, whose errors the source discards, is left out.
\<close>

definition process_item :: "env \<Rightarrow> crawl \<Rightarrow> item \<Rightarrow> crawl" where
  "process_item e st it =
     (case it of (href, txt, year) \<Rightarrow>
        if href \<in> seen st \<or> (case year of None \<Rightarrow> False | Some y \<Rightarrow> y < 2020) then st
        else
          (let st1 = st\<lparr>seen := insert href (seen st)\<rparr>
           in case find_pdf_link_in_detail e (clock st1) href of
                ((pdf_bytes, pdf_url), t', tried) \<Rightarrow>
                  (let st2 = st1\<lparr>clock := t', trace := trace st1 @ [Resolve (clock st1) href]\<rparr>
                   in case pdf_bytes of
                        Some (b # bs) \<Rightarrow>
                          (let rs = extract_records (pdf_pages e (b # bs))
                           in st2\<lparr>saved := saved st2 + 1,
                                  rows_total := rows_total st2 + length rs,
                                  csv_rows := csv_rows st2 @ map (\<lambda>r. (txt, href, pdf_url, r)) rs\<rparr>)
                      | _ \<Rightarrow> st2)))"

text \<open>
  One listing page: load it, then work through its items. The source has this text
  twice, for the first page and inside the loop over the further pages.
\<close>

definition crawl_page :: "env \<Rightarrow> string \<Rightarrow> crawl \<Rightarrow> bool \<times> crawl" where
  "crawl_page e url st =
     (case iter_listing_page e (clock st) url of
        (stop, items) \<Rightarrow>
          (stop, foldl (process_item e)
                   (st\<lparr>clock := clock st + 1, trace := trace st @ [Listing (clock st) url]\<rparr>)
                   items))"

definition listing_url :: "nat \<Rightarrow> string" where
  "listing_url start = BASE_URL @ ''?b_start:int='' @ str_nat start"

text \<open>\<open>for start in range(12, 20000, PAGE_STEP)\<close>, left at the first page with \<open>stop\<close>.\<close>

function pages_loop :: "env \<Rightarrow> nat \<Rightarrow> crawl \<Rightarrow> crawl" where
  "pages_loop e start st =
     (if start < 20000
      then (case crawl_page e (listing_url start) st of
              (stop, st') \<Rightarrow> if stop then st' else pages_loop e (start + PAGE_STEP) st')
      else st)"
  by pat_completeness auto
termination
  by (relation "measure (\<lambda>(e, start, st). 20000 - start)") (auto simp: PAGE_STEP_def)

definition start_state :: crawl where
  "start_state = \<lparr>clock = 0, seen = {}, saved = 0, rows_total = 0, csv_rows = [], trace = []\<rparr>"

definition historico_stream :: "env \<Rightarrow> crawl" where
  "historico_stream e =
     (case crawl_page e BASE_URL start_state of
        (stop, st) \<Rightarrow> if stop then st else pages_loop e 12 st)"

text \<open>The references handed to the resolver and the listing pages loaded, from a trace.\<close>

fun resolved :: "event list \<Rightarrow> string list" where
  "resolved [] = []"
| "resolved (Resolve t h # es) = h # resolved es"
| "resolved (Listing t u # es) = resolved es"

fun listings :: "event list \<Rightarrow> string list" where
  "listings [] = []"
| "listings (Listing t u # es) = u # listings es"
| "listings (Resolve t h # es) = listings es"

text \<open>\<open>not data\<close> for the result of a download: \<open>None\<close> or no bytes at all.\<close>

definition falsy :: "string option \<Rightarrow> bool" where
  "falsy x = (case x of Some (b # bs) \<Rightarrow> False | _ \<Rightarrow> True)"

text \<open>
  The two tests of \<open>_iter_listing_page\<close> on a link: its text names a gazette file, and its
  year is at or below the cutoff.
\<close>

definition accepted :: "anchor \<Rightarrow> bool" where
  "accepted a = (contains diario_label (strip (or_empty (a_text a)))
     \<and> contains ''.pdf'' (strip (or_empty (a_text a))))"

definition cut :: "anchor \<Rightarrow> bool" where
  "cut a = (accepted a \<and> (case year_of (strip (or_empty (a_text a))) of
     None \<Rightarrow> False | Some y \<Rightarrow> y \<le> CUTOFF_YEAR_STOP))"

text \<open>The invariant of the visited set, and the shape of a trace that the latch leaves.\<close>

definition visited_once :: "crawl \<Rightarrow> bool" where
  "visited_once st = (distinct (resolved (trace st)) \<and> set (resolved (trace st)) \<subseteq> seen st)"

definition latched :: "env \<Rightarrow> event list \<Rightarrow> bool" where
  "latched e es = (\<forall>pre t u post. es = pre @ Listing t u # post \<longrightarrow> fst (iter_listing_page e t u) \<longrightarrow>
     listings post = [] \<and> set (resolved post) \<subseteq> fst ` set (snd (iter_listing_page e t u)))"

declare pages_loop.simps [simp del]

declare str_nat.simps [simp del]

section \<open>Example worlds\<close>

text \<open>
  Small worlds for the concrete cases below. In all of them \<open>urljoin\<close> returns the
  reference, as it does for an absolute one, and the PDF reader finds no page.
\<close>

definition ex_env :: "(string \<Rightarrow> page) \<Rightarrow> (string \<Rightarrow> response option) \<Rightarrow> env" where
  "ex_env pages net =
     \<lparr>browse = (\<lambda>t u. pages u), urlopen = (\<lambda>t u r. net u), urljoin = (\<lambda>b h. h),
      pdf_pages = (\<lambda>d. [])\<rparr>"

text \<open>A detail page with one link to a PDF, and one with nothing but its source.\<close>

definition ex_detail :: page where
  "ex_detail =
     \<lparr>current_url = ''http://h/d/view'',
      anchors = [\<lparr>a_text = Some ''Baixar'', a_href = Some ''http://h/d/doe.PDF''\<rparr>],
      iframes = [], embeds = [], page_source = []\<rparr>"

definition ex_source :: "string \<Rightarrow> page" where
  "ex_source src =
     \<lparr>current_url = ''http://h/d'', anchors = [], iframes = [], embeds = [], page_source = src\<rparr>"

text \<open>
  Two listing pages. The first has the edition of 10-01-2024 and a link that is no
  edition; the second has the first edition again, the edition of 05-03-2018 and the
  edition of 02-02-2023. Every other page is empty.
\<close>

definition ex_label :: "string \<Rightarrow> string" where
  "ex_label date = diario_label @ '' '' @ date @ ''.pdf''"

definition ex_listing :: "string \<Rightarrow> page" where
  "ex_listing u =
     (if u = BASE_URL then
        \<lparr>current_url = u,
         anchors = [\<lparr>a_text = Some (ex_label ''10-01-2024''), a_href = Some ''http://h/a''\<rparr>,
                    \<lparr>a_text = Some ''Contato'', a_href = Some ''http://h/n''\<rparr>],
         iframes = [], embeds = [], page_source = []\<rparr>
      else if u = listing_url 12 then
        \<lparr>current_url = u,
         anchors = [\<lparr>a_text = Some (ex_label ''10-01-2024''), a_href = Some ''http://h/a''\<rparr>,
                    \<lparr>a_text = Some (ex_label ''05-03-2018''), a_href = Some ''http://h/c''\<rparr>,
                    \<lparr>a_text = Some (ex_label ''02-02-2023''), a_href = Some ''http://h/b''\<rparr>],
         iframes = [], embeds = [], page_source = []\<rparr>
      else \<lparr>current_url = u, anchors = [], iframes = [], embeds = [], page_source = []\<rparr>)"

section \<open>Properties of the record extractor\<close>



lemma contains_iff: "contains p s \<longleftrightarrow> (\<exists>a b. s = a @ p @ b)"
proof (induction s)
  case Nil
  then show ?case by auto
next
  case (Cons c cs)
  show ?case
  proof
    assume "contains p (c # cs)"
    then consider "prefix p (c # cs)" | "contains p cs" by auto
    then show "\<exists>a b. c # cs = a @ p @ b"
    proof cases
      case 1
      then obtain b where "c # cs = p @ b" by (auto simp: prefix_def)
      then have "c # cs = [] @ p @ b" by simp
      then show ?thesis by blast
    next
      case 2
      with Cons.IH obtain a b where "cs = a @ p @ b" by blast
      then have "c # cs = (c # a) @ p @ b" by simp
      then show ?thesis by blast
    qed
  next
    assume "\<exists>a b. c # cs = a @ p @ b"
    then obtain a b where ab: "c # cs = a @ p @ b" by blast
    show "contains p (c # cs)"
    proof (cases a)
      case Nil
      with ab have "prefix p (c # cs)" by (simp add: prefix_def)
      then show ?thesis by simp
    next
      case (Cons x a')
      with ab have "cs = a' @ p @ b" by simp
      with Cons.IH have "contains p cs" by blast
      then show ?thesis by simp
    qed
  qed
qed

lemma contains_map: "contains p s \<Longrightarrow> contains (map f p) (map f s)"
proof -
  assume "contains p s"
  then obtain a b where "s = a @ p @ b" by (auto simp: contains_iff)
  then have "map f s = map f a @ map f p @ map f b" by simp
  then show ?thesis unfolding contains_iff by blast
qed

lemma strip_mark_pensao:
  "map strip_mark (''conceder pens'' @ [CHR 0xE3] @ ''o'') = ''conceder pensao''"
  by (simp add: strip_mark_def in_range_def cp_def)

lemma strip_mark_isencao:
  "map strip_mark (''isen'' @ [CHR 0xE7, CHR 0xE3] @ ''o de imposto de renda'') = ''isencao de imposto de renda''"
  by (simp add: strip_mark_def in_range_def cp_def)

lemma pensao_lower_nrm:
  "contains (''conceder pens'' @ [CHR 0xE3] @ ''o'') (lower s) \<Longrightarrow> contains ''conceder pensao'' (nrm s)"
  using contains_map [of "''conceder pens'' @ [CHR 0xE3] @ ''o''" "lower s" strip_mark]
  by (simp only: strip_mark_pensao nrm_def)

lemma isencao_lower_nrm:
  "contains (''isen'' @ [CHR 0xE7, CHR 0xE3] @ ''o de imposto de renda'') (lower s)
   \<Longrightarrow> contains ''isencao de imposto de renda'' (nrm s)"
  using contains_map [of "''isen'' @ [CHR 0xE7, CHR 0xE3] @ ''o de imposto de renda''" "lower s" strip_mark]
  by (simp only: strip_mark_isencao nrm_def)

lemma tipo_of_None_iff:
  "tipo_of (nrm s) s = None \<longleftrightarrow>
     \<not> contains ''conceder aposentadoria'' (nrm s) \<and> \<not> contains ''conceder pensao'' (nrm s) \<and>
     \<not> (contains ''isencao de imposto de renda'' (nrm s) \<and> contains ''indef'' (nrm s))"
  unfolding tipo_of_def using pensao_lower_nrm [of s] isencao_lower_nrm [of s]
  by (auto simp del: contains.simps)

lemma registro_do_bloco_None_iff:
  "registro_do_bloco i b = None \<longleftrightarrow> tipo_of (nrm (achatar b)) (achatar b) = None"
  by (simp add: registro_do_bloco_def Let_def split: option.splits)

text \<open>
  Claim C2, as amended: a block whose normalized, collapsed text holds neither
  \<open>conceder aposentadoria\<close> nor \<open>conceder pensao\<close>, nor both \<open>isencao de imposto de renda\<close>
  and the stem \<open>indef\<close>, gives no record. (The source tests the stem \<open>indef\<close>, not
  \<open>indeferi\<close>.)
\<close>

theorem no_anchor_no_record:
  assumes "\<not> contains ''conceder aposentadoria'' (nrm (achatar bloco))"
    and "\<not> contains ''conceder pensao'' (nrm (achatar bloco))"
    and "\<not> (contains ''isencao de imposto de renda'' (nrm (achatar bloco))
            \<and> contains ''indef'' (nrm (achatar bloco)))"
  shows "registro_do_bloco i bloco = None"
  using assms by (simp only: registro_do_bloco_None_iff tipo_of_None_iff) simp



lemma set_map_filter_eq: "set (List.map_filter f xs) = {y. \<exists>x \<in> set xs. f x = Some y}"
  by (induction xs) (auto split: option.splits)

lemma raw_blocks_Nil: "raw_blocks [] = []"
  by (simp add: raw_blocks_def split_def strip_def strip_by_def rstrip_by_def)

lemma in_extract_records:
  assumes "i < length pages" and "pages ! i = Some txt" and "b \<in> set (raw_blocks txt)"
    and "registro_do_bloco (Suc i) b = Some r"
  shows "r \<in> set (extract_records pages)"
proof -
  from assms(3) have "txt \<noteq> []" using raw_blocks_Nil by auto
  with assms(2,3,4) have "r \<in> set (registros_da_pagina (Suc i) (pages ! i))"
    by (auto simp: registros_da_pagina_def set_map_filter_eq)
  moreover from assms(1) have "(Suc i, pages ! i) \<in> set (List.enumerate 1 pages)"
    by (simp add: in_set_enumerate_eq)
  ultimately show ?thesis
    unfolding extract_records_def by fastforce
qed

text \<open>
  Claim C8: a block of page \<open>i + 1\<close> whose normalized, collapsed text holds
  \<open>conceder aposentadoria\<close> gives a record of type \<open>APOSENTADORIA\<close> with that page number and
  the start of that block as excerpt.
\<close>

theorem aposentadoria_recall:
  assumes "i < length pages" and "pages ! i = Some txt" and "b \<in> set (raw_blocks txt)"
    and "contains ''conceder aposentadoria'' (nrm (achatar b))"
  shows "\<exists>r \<in> set (extract_records pages).
           tipo_ato r = ''APOSENTADORIA'' \<and> pagina r = i + 1 \<and> trecho r = take 260 (achatar b)"
proof -
  from assms(4) have "tipo_of (nrm (achatar b)) (achatar b) = Some ''APOSENTADORIA''"
    by (simp add: tipo_of_def)
  then obtain r where r: "registro_do_bloco (Suc i) b = Some r"
    "tipo_ato r = ''APOSENTADORIA''" "pagina r = i + 1" "trecho r = take 260 (achatar b)"
    by (simp add: registro_do_bloco_def Let_def)
  from in_extract_records [OF assms(1,2,3) r(1)] r(2,3,4) show ?thesis by blast
qed

lemma sub_ws_from_space: "c \<in> set (sub_ws_from run s) \<Longrightarrow> isspace c \<Longrightarrow> c = CHR '' ''"
  by (induction run s rule: sub_ws_from.induct) (auto split: if_splits)

lemma isspace_space: "isspace (CHR '' '')"
  by (simp add: isspace_def in_range_def cp_def)

lemma sub_ws_from_run_free:
  "ws_run_free (sub_ws_from run s) \<and> (run \<longrightarrow> (case sub_ws_from run s of [] \<Rightarrow> True | c # _ \<Rightarrow> \<not> isspace c))"
proof (induction run s rule: sub_ws_from.induct)
  case (1 run)
  then show ?case by simp
next
  case (2 run c cs)
  show ?case
  proof (cases "isspace c")
    case True
    with 2 show ?thesis
      by (cases "sub_ws_from True cs") (auto simp: isspace_space)
  next
    case False
    with 2 show ?thesis
      by (cases "sub_ws_from False cs") auto
  qed
qed

lemma ws_run_free_Cons: "ws_run_free (c # cs) \<Longrightarrow> ws_run_free cs"
  by (cases cs) auto

lemma ws_run_free_suffix: "ws_run_free (xs @ ys) \<Longrightarrow> ws_run_free ys"
  by (induction xs) (auto dest: ws_run_free_Cons)

lemma ws_run_free_prefix: "ws_run_free (xs @ ys) \<Longrightarrow> ws_run_free xs"
proof (induction xs rule: ws_run_free.induct)
  case (1 a b cs)
  then show ?case by auto
qed auto

lemma ws_run_free_take: "ws_run_free s \<Longrightarrow> ws_run_free (take n s)"
  using ws_run_free_prefix [of "take n s" "drop n s"] by simp

lemma ws_run_free_dropWhile: "ws_run_free s \<Longrightarrow> ws_run_free (dropWhile p s)"
  using ws_run_free_suffix [of "takeWhile p s" "dropWhile p s"] by simp

lemma rstrip_by_prefix: "\<exists>t. s = rstrip_by p s @ t"
proof -
  have "rev s = takeWhile p (rev s) @ dropWhile p (rev s)" by simp
  then have "s = rev (dropWhile p (rev s)) @ rev (takeWhile p (rev s))"
    by (metis rev_append rev_rev_ident)
  then show ?thesis unfolding rstrip_by_def by blast
qed

lemma ws_run_free_rstrip: "ws_run_free s \<Longrightarrow> ws_run_free (rstrip_by p s)"
  using rstrip_by_prefix [of s p] ws_run_free_prefix by metis

lemma set_rstrip_by: "set (rstrip_by p s) \<subseteq> set s"
  unfolding rstrip_by_def using set_dropWhileD by fastforce

lemma set_strip_by: "set (strip_by p s) \<subseteq> set s"
  unfolding strip_by_def using set_rstrip_by [of p "dropWhile p s"] set_dropWhileD by fastforce

lemma achatar_run_free: "ws_run_free (achatar b)"
  unfolding achatar_def strip_def strip_by_def sub_ws_def
  using sub_ws_from_run_free [of False b]
  by (simp add: ws_run_free_rstrip ws_run_free_dropWhile)

lemma achatar_space: "c \<in> set (achatar b) \<Longrightarrow> isspace c \<Longrightarrow> c = CHR '' ''"
  unfolding achatar_def strip_def sub_ws_def
  using set_strip_by [of isspace "sub_ws_from False b"] sub_ws_from_space by blast

lemma registro_do_bloco_fields:
  "registro_do_bloco i b = Some r \<Longrightarrow> pagina r = i \<and> trecho r = take 260 (achatar b)"
  by (auto simp: registro_do_bloco_def Let_def split: option.splits)

lemma registros_da_pagina_fields:
  "r \<in> set (registros_da_pagina i pg) \<Longrightarrow> pagina r = i \<and> (\<exists>b. trecho r = take 260 (achatar b))"
  by (auto simp: registros_da_pagina_def Let_def set_map_filter_eq split: if_splits
      dest: registro_do_bloco_fields)

lemma enumerate_pages_sorted:
  "sorted (map pagina (concat (map (\<lambda>(i, pg). registros_da_pagina i pg) (List.enumerate n pages))))
   \<and> (\<forall>r \<in> set (concat (map (\<lambda>(i, pg). registros_da_pagina i pg) (List.enumerate n pages))).
        n \<le> pagina r \<and> (\<exists>b. trecho r = take 260 (achatar b)))"
proof (induction pages arbitrary: n)
  case Nil
  then show ?case by simp
next
  case (Cons pg pages)
  have here: "\<forall>r \<in> set (registros_da_pagina n pg). pagina r = n \<and> (\<exists>b. trecho r = take 260 (achatar b))"
    using registros_da_pagina_fields by blast
  then have "map pagina (registros_da_pagina n pg) = replicate (length (registros_da_pagina n pg)) n"
    by (simp add: map_replicate_const [symmetric] cong: map_cong)
  then have s1: "sorted (map pagina (registros_da_pagina n pg))"
    by (simp add: sorted_replicate)
  from Cons.IH [of "Suc n"] here s1 show ?case
    by (auto simp: sorted_append) force+
qed

text \<open>
  Claim C10: the records come in the order of their pages, page numbers start at 1, and an
  excerpt holds no newline, no whitespace other than the space, and no two whitespace
  characters side by side.
\<close>

theorem records_ordered_and_collapsed:
  "sorted (map pagina (extract_records pages)) \<and>
   (\<forall>r \<in> set (extract_records pages).
      1 \<le> pagina r \<and> CHR 0x0A \<notin> set (trecho r) \<and> ws_run_free (trecho r)
      \<and> (\<forall>c \<in> set (trecho r). isspace c \<longrightarrow> c = CHR '' ''))"
proof -
  have nl: "isspace (CHR 0x0A)" by (simp add: isspace_def in_range_def cp_def)
  have t: "CHR 0x0A \<notin> set (take 260 (achatar b)) \<and> ws_run_free (take 260 (achatar b))
      \<and> (\<forall>c \<in> set (take 260 (achatar b)). isspace c \<longrightarrow> c = CHR '' '')" for b
  proof -
    have "\<forall>c \<in> set (take 260 (achatar b)). isspace c \<longrightarrow> c = CHR '' ''"
      using achatar_space [of _ b] by (meson in_set_takeD)
    moreover from this nl have "CHR 0x0A \<notin> set (take 260 (achatar b))" by fastforce
    ultimately show ?thesis using achatar_run_free [of b] ws_run_free_take by blast
  qed
  from enumerate_pages_sorted [of 1 pages] t show ?thesis
    unfolding extract_records_def by fastforce
qed


subsection \<open>Evaluating the character tables\<close>

lemma lower_chr_bits:
  "lower_chr (Char b0 b1 b2 b3 b4 b5 b6 b7) =
     Char b0 b1 b2 b3 b4
       (b5 \<or> (b6 \<and> (if b7 then \<not> (b0 \<and> b1 \<and> b2 \<and> b4)
                      else (b0 \<or> b1 \<or> b2 \<or> b3 \<or> b4) \<and> \<not> (b4 \<and> b3 \<and> (b2 \<or> (b1 \<and> b0))))))
       b6 b7"
  by (cases b0; cases b1; cases b2; cases b3; cases b4; cases b5; cases b6; cases b7;
      simp add: lower_chr_def in_range_def cp_def char_of_def bit_iff_odd_drop_bit drop_bit_eq_div)

lemmas char_eval = isspace_def isdecimal_def isalnum_def isword_def in_range_def cp_def
  lower_chr_bits strip_mark_def

lemmas text_eval = achatar_def sub_ws_def strip_def strip_by_def rstrip_by_def nrm_def lower_def
  raw_blocks_def split_def

text \<open>A block of another kind of act has none of the anchors and gives no record.\<close>

theorem no_anchor_no_record_witness:
  "\<not> contains ''conceder aposentadoria'' (nrm (achatar ''PORTARIA n. 12 - Nomeia JOSE LIMA''))
   \<and> \<not> contains ''conceder pensao'' (nrm (achatar ''PORTARIA n. 12 - Nomeia JOSE LIMA''))
   \<and> \<not> (contains ''isencao de imposto de renda'' (nrm (achatar ''PORTARIA n. 12 - Nomeia JOSE LIMA''))
        \<and> contains ''indef'' (nrm (achatar ''PORTARIA n. 12 - Nomeia JOSE LIMA'')))
   \<and> registro_do_bloco 3 ''PORTARIA n. 12 - Nomeia JOSE LIMA'' = None"
proof -
  let ?b = "''PORTARIA n. 12 - Nomeia JOSE LIMA''"
  have nb: "nrm (achatar ?b) = ''portaria n. 12 - nomeia jose lima''"
    by (simp add: text_eval char_eval)
  have h1: "\<not> contains ''conceder aposentadoria'' (nrm (achatar ?b))"
    unfolding nb by simp
  have h2: "\<not> contains ''conceder pensao'' (nrm (achatar ?b))"
    unfolding nb by simp
  have h3: "\<not> (contains ''isencao de imposto de renda'' (nrm (achatar ?b))
        \<and> contains ''indef'' (nrm (achatar ?b)))"
    unfolding nb by simp
  from no_anchor_no_record [OF h1 h2 h3, of 3] h1 h2 h3 show ?thesis by blast
qed

text \<open>
  Claim C2 as stated fails: a block with the exemption phrase and the word
  \<open>indefinido\<close> has no \<open>indeferi\<close> stem and none of the other anchors, and is a record.
\<close>

theorem indef_stem_counterexample:
  "\<not> contains ''conceder aposentadoria'' (nrm (achatar (''Isen'' @ [CHR 0xE7, CHR 0xE3] @ ''o de imposto de renda por prazo indefinido'')))
   \<and> \<not> contains ''conceder pensao'' (nrm (achatar (''Isen'' @ [CHR 0xE7, CHR 0xE3] @ ''o de imposto de renda por prazo indefinido'')))
   \<and> \<not> contains ''indeferi'' (nrm (achatar (''Isen'' @ [CHR 0xE7, CHR 0xE3] @ ''o de imposto de renda por prazo indefinido'')))
   \<and> registro_do_bloco 1 (''Isen'' @ [CHR 0xE7, CHR 0xE3] @ ''o de imposto de renda por prazo indefinido'') \<noteq> None"
proof -
  let ?b = "''Isen'' @ [CHR 0xE7, CHR 0xE3] @ ''o de imposto de renda por prazo indefinido''"
  have nb: "nrm (achatar ?b) = ''isencao de imposto de renda por prazo indefinido''"
    by (simp add: text_eval char_eval)
  have h1: "\<not> contains ''conceder aposentadoria'' (nrm (achatar ?b))"
    unfolding nb by simp
  have h2: "\<not> contains ''conceder pensao'' (nrm (achatar ?b))"
    unfolding nb by simp
  have h3: "\<not> contains ''indeferi'' (nrm (achatar ?b))"
    unfolding nb by simp
  have h4: "contains ''isencao de imposto de renda'' (nrm (achatar ?b)) \<and> contains ''indef'' (nrm (achatar ?b))"
    unfolding nb by simp
  from h4 have "registro_do_bloco 1 ?b \<noteq> None"
    by (simp only: registro_do_bloco_None_iff tipo_of_None_iff) simp
  with h1 h2 h3 show ?thesis by blast
qed

text \<open>A page of one block with the phrase in mixed case and with two spaces.\<close>

theorem aposentadoria_recall_witness:
  "(0::nat) < length [Some ''Resolve CONCEDER  Aposentadoria a MARIA LIMA'']
   \<and> [Some ''Resolve CONCEDER  Aposentadoria a MARIA LIMA''] ! 0 = Some ''Resolve CONCEDER  Aposentadoria a MARIA LIMA''
   \<and> ''Resolve CONCEDER  Aposentadoria a MARIA LIMA'' \<in> set (raw_blocks ''Resolve CONCEDER  Aposentadoria a MARIA LIMA'')
   \<and> contains ''conceder aposentadoria'' (nrm (achatar ''Resolve CONCEDER  Aposentadoria a MARIA LIMA''))
   \<and> (\<exists>r \<in> set (extract_records [Some ''Resolve CONCEDER  Aposentadoria a MARIA LIMA'']).
         tipo_ato r = ''APOSENTADORIA'' \<and> pagina r = 0 + 1
         \<and> trecho r = take 260 (achatar ''Resolve CONCEDER  Aposentadoria a MARIA LIMA''))"
proof -
  let ?t = "''Resolve CONCEDER  Aposentadoria a MARIA LIMA''"
  have h1: "(0::nat) < length [Some ?t]" by simp
  have h2: "[Some ?t] ! 0 = Some ?t" by simp
  have h3: "?t \<in> set (raw_blocks ?t)"
    by (simp add: text_eval char_eval)
  have nb: "nrm (achatar ?t) = ''resolve conceder aposentadoria a maria lima''"
    by (simp add: text_eval char_eval)
  have h4: "contains ''conceder aposentadoria'' (nrm (achatar ?t))"
    unfolding nb by simp
  from aposentadoria_recall [OF h1 h2 h3 h4] h1 h2 h3 h4 show ?thesis by blast
qed

text \<open>A document whose first page has no text and whose second page has one act.\<close>

theorem records_ordered_and_collapsed_witness:
  "extract_records [None, Some (''Resolve conceder'' @ [CHR 0x09] @ ''  aposentadoria a MARIA LIMA'')] \<noteq> []
   \<and> sorted (map pagina (extract_records [None, Some (''Resolve conceder'' @ [CHR 0x09] @ ''  aposentadoria a MARIA LIMA'')]))
   \<and> 1 \<le> pagina (hd (extract_records [None, Some (''Resolve conceder'' @ [CHR 0x09] @ ''  aposentadoria a MARIA LIMA'')]))
   \<and> CHR 0x0A \<notin> set (trecho (hd (extract_records [None, Some (''Resolve conceder'' @ [CHR 0x09] @ ''  aposentadoria a MARIA LIMA'')])))
   \<and> ws_run_free (trecho (hd (extract_records [None, Some (''Resolve conceder'' @ [CHR 0x09] @ ''  aposentadoria a MARIA LIMA'')])))"
proof -
  let ?t = "''Resolve conceder'' @ [CHR 0x09] @ ''  aposentadoria a MARIA LIMA''"
  have h1: "1 < length [None, Some ?t]" by simp
  have h2: "[None, Some ?t] ! 1 = Some ?t" by simp
  have h3: "?t \<in> set (raw_blocks ?t)"
    by (simp add: text_eval char_eval)
  have nb: "nrm (achatar ?t) = ''resolve conceder aposentadoria a maria lima''"
    by (simp add: text_eval char_eval)
  have "contains ''conceder aposentadoria'' (nrm (achatar ?t))"
    unfolding nb by simp
  then have "tipo_of (nrm (achatar ?t)) (achatar ?t) \<noteq> None"
    using tipo_of_None_iff [of "achatar ?t"] by blast
  then have "registro_do_bloco (Suc 1) ?t \<noteq> None"
    using registro_do_bloco_None_iff [of "Suc 1" ?t] by simp
  then obtain r where "registro_do_bloco (Suc 1) ?t = Some r"
    by (cases "registro_do_bloco (Suc 1) ?t") auto
  from in_extract_records [OF h1 h2 h3 this] have ne: "extract_records [None, Some ?t] \<noteq> []"
    by auto
  then have "hd (extract_records [None, Some ?t]) \<in> set (extract_records [None, Some ?t])"
    by simp
  with records_ordered_and_collapsed [of "[None, Some ?t]"] ne show ?thesis by blast
qed

end
